theory Spec2Isabelle
  imports Complex_Main "HOL-Library.Log_Nat" "HOL-Library.Char_ord" "HOL-Library.List_Lexorder" "HOL-Library.AList"
begin

section \<open>Python strings\<close>

text \<open>
  A Python \<open>str\<close> is modelled as a HOL \<open>string\<close>. The character tests below are
  the ASCII ones: on ASCII text they agree with Python's \<open>str\<close> methods, and a
  character above 127 is treated as neither letter, digit, whitespace nor cased.
  Non-ASCII literals of the source (the bullet glyph) are written as the bytes of their
  UTF-8 encoding, so they never occur in ASCII text.
\<close>

definition is_digit :: "char \<Rightarrow> bool" where
  "is_digit c = (CHR ''0'' \<le> c \<and> c \<le> CHR ''9'')"

definition is_upper :: "char \<Rightarrow> bool" where
  "is_upper c = (CHR ''A'' \<le> c \<and> c \<le> CHR ''Z'')"

definition is_lower :: "char \<Rightarrow> bool" where
  "is_lower c = (CHR ''a'' \<le> c \<and> c \<le> CHR ''z'')"

definition is_alpha :: "char \<Rightarrow> bool" where
  "is_alpha c = (is_upper c \<or> is_lower c)"

text \<open>\<open>str.isspace\<close> on ASCII: tab, LF, VT, FF, CR, the separators 0x1C..0x1F, space.\<close>

definition is_space :: "char \<Rightarrow> bool" where
  "is_space c = ((CHR 0x09 \<le> c \<and> c \<le> CHR 0x0D) \<or> (CHR 0x1C \<le> c \<and> c \<le> CHR 0x20))"

text \<open>The regular-expression class \<open>\w\<close> on ASCII: letters, digits, underscore. Python's
  class also holds the letters and digits beyond ASCII, so the word boundaries of the
  model are those of the code on ASCII text only.\<close>

definition is_word :: "char \<Rightarrow> bool" where
  "is_word c = (is_alpha c \<or> is_digit c \<or> c = CHR ''_'')"

text \<open>Upper- and lower-case ASCII letters differ in the bit of value 32.\<close>

definition lower_char :: "char \<Rightarrow> char" where
  "lower_char c =
     (if is_upper c
      then (case c of Char b0 b1 b2 b3 b4 b5 b6 b7 \<Rightarrow> Char b0 b1 b2 b3 b4 True b6 b7)
      else c)"

definition upper_char :: "char \<Rightarrow> char" where
  "upper_char c =
     (if is_lower c
      then (case c of Char b0 b1 b2 b3 b4 b5 b6 b7 \<Rightarrow> Char b0 b1 b2 b3 b4 False b6 b7)
      else c)"

definition py_lower :: "string \<Rightarrow> string" where
  "py_lower s = map lower_char s"

text \<open>\<open>str.isupper\<close>: at least one cased character and no lower-case one.\<close>

definition py_isupper :: "string \<Rightarrow> bool" where
  "py_isupper s = (list_ex is_upper s \<and> \<not> list_ex is_lower s)"

text \<open>\<open>str.title\<close>: a cased character is upper-cased when the character before it is
  not cased, and lower-cased otherwise. The flag is "previous character is cased".\<close>

fun title_from :: "bool \<Rightarrow> string \<Rightarrow> string" where
  "title_from prev [] = []"
| "title_from prev (c # cs) =
     (if is_alpha c
      then (if prev then lower_char c else upper_char c) # title_from True cs
      else c # title_from False cs)"

definition py_title :: "string \<Rightarrow> string" where
  "py_title s = title_from False s"

definition py_strip :: "string \<Rightarrow> string" where
  "py_strip s = rev (dropWhile is_space (rev (dropWhile is_space s)))"

text \<open>\<open>s.lstrip(chars)\<close> removes the leading characters that occur in \<open>chars\<close>.\<close>

definition py_lstrip_chars :: "string \<Rightarrow> string \<Rightarrow> string" where
  "py_lstrip_chars chars s = dropWhile (\<lambda>c. c \<in> set chars) s"

definition py_startswith :: "string \<Rightarrow> string \<Rightarrow> bool" where
  "py_startswith s p = (take (length p) s = p)"

definition py_endswith :: "string \<Rightarrow> string \<Rightarrow> bool" where
  "py_endswith s p = (length p \<le> length s \<and> drop (length s - length p) s = p)"

text \<open>\<open>needle in hay\<close> for strings: \<open>needle\<close> occurs as a contiguous substring.\<close>

fun py_in :: "string \<Rightarrow> string \<Rightarrow> bool" where
  "py_in needle [] = (needle = [])"
| "py_in needle (c # cs) = (py_startswith (c # cs) needle \<or> py_in needle cs)"

text \<open>\<open>s.split(sep)\<close> for a one-character separator: never the empty list.\<close>

fun py_split :: "char \<Rightarrow> string \<Rightarrow> string list" where
  "py_split sep [] = [[]]"
| "py_split sep (c # cs) =
     (let r = py_split sep cs
      in if c = sep then [] # r else (c # hd r) # tl r)"

text \<open>\<open>sep.join(xs)\<close>.\<close>

fun py_join :: "string \<Rightarrow> string list \<Rightarrow> string" where
  "py_join sep [] = []"
| "py_join sep [x] = x"
| "py_join sep (x # y # ys) = x @ sep @ py_join sep (y # ys)"

text \<open>\<open>s.split()\<close>: the maximal runs of non-whitespace characters.\<close>

fun split_ws_from :: "string \<Rightarrow> string \<Rightarrow> string list" where
  "split_ws_from cur [] = (if cur = [] then [] else [cur])"
| "split_ws_from cur (c # cs) =
     (if is_space c
      then (if cur = [] then split_ws_from [] cs else cur # split_ws_from [] cs)
      else split_ws_from (cur @ [c]) cs)"

definition py_split_ws :: "string \<Rightarrow> string list" where
  "py_split_ws s = split_ws_from [] s"

text \<open>\<open>s.splitlines()\<close> on ASCII: a line ends at LF, CR, CR LF, VT, FF or one of the
  separators 0x1C..0x1E; the terminators are dropped and no empty last line is added.\<close>

definition is_linebreak :: "char \<Rightarrow> bool" where
  "is_linebreak c = ((CHR 0x0A \<le> c \<and> c \<le> CHR 0x0D) \<or> (CHR 0x1C \<le> c \<and> c \<le> CHR 0x1E))"

fun splitlines_from :: "string \<Rightarrow> string \<Rightarrow> string list" where
  "splitlines_from cur [] = (if cur = [] then [] else [cur])"
| "splitlines_from cur [c] =
     (if is_linebreak c then [cur] else [cur @ [c]])"
| "splitlines_from cur (c # d # cs) =
     (if c = CHR 0x0D \<and> d = CHR 0x0A then cur # splitlines_from [] cs
      else if is_linebreak c then cur # splitlines_from [] (d # cs)
      else splitlines_from (cur @ [c]) (d # cs))"

definition py_splitlines :: "string \<Rightarrow> string list" where
  "py_splitlines s = splitlines_from [] s"

section \<open>Name extraction (extractor.py)\<close>

definition name_skip_words :: "string list" where
  "name_skip_words =
     [''summary'', ''objective'', ''about'', ''phone'', ''email'', ''linkedin'', ''github'']"

text \<open>
  The body of the loop over the first 15 lines: whether \<open>line\<close> is appended to
  \<open>name_candidates\<close>. The source tests \<open>alpha_count / len(line) > 0.7\<close> in floating
  point on a line of at most 100 characters; a quotient of two such integers that
  differs from 7/10 differs from it by at least 1/1000, so the test is the integer
  comparison \<open>7 * len(line) < 10 * alpha_count\<close>.
\<close>

definition name_candidate :: "string \<Rightarrow> bool" where
  "name_candidate line =
     (if py_in ''@'' line \<or> py_in ''http'' line \<or> (py_in ''+'' line \<and> length line < 5)
      then False
      else if length line > 100 then False
      else if py_isupper line \<and> list_ex is_digit line then False
      else if list_ex (\<lambda>skip. py_in skip (py_lower line)) name_skip_words then False
      else
        (let words = py_split_ws line
         in 1 \<le> length words \<and> length words \<le> 5 \<and>
            7 * length line
              < 10 * length (filter (\<lambda>c. is_alpha c \<or> is_space c \<or> c \<in> set [CHR ''-'', CHR 0x27]) line)))"

definition extract_name_robust :: "string \<Rightarrow> string" where
  "extract_name_robust text =
     (let lines = filter (\<lambda>l. l \<noteq> []) (map py_strip (py_splitlines text))
      in if lines = [] then []
         else
           (let name_candidates = filter name_candidate (take 15 lines)
            in if name_candidates \<noteq> [] then
                 (if 2 \<le> length name_candidates then
                    (let first_candidate = name_candidates ! 0;
                         second_candidate = name_candidates ! 1
                     in if length (py_split_ws first_candidate) \<le> 3
                           \<and> length (py_split_ws second_candidate) \<le> 3
                        then
                          (let combined = py_strip (first_candidate @ '' '' @ second_candidate)
                           in if length (py_split_ws combined) \<le> 5
                              then py_title combined
                              else py_title (name_candidates ! 0))
                        else py_title (name_candidates ! 0))
                  else py_title (name_candidates ! 0))
               else []))"

section \<open>Skill extraction (extractor.py)\<close>

definition TECH_WORDS :: "string list" where
  "TECH_WORDS = [
     ''python'', ''java'', ''c++'', ''c#'', ''javascript'', ''typescript'', ''go'',
     ''rust'', ''r'', ''scala'', ''kotlin'', ''fastapi'', ''flask'', ''django'', ''spring'',
     ''nodejs'', ''express'', ''next.js'', ''nextjs'', ''vue.js'', ''nuxt'', ''pandas'',
     ''numpy'', ''scipy'', ''scikit-learn'', ''sklearn'', ''matplotlib'', ''seaborn'',
     ''plotly'', ''statsmodels'', ''xgboost'', ''lightgbm'', ''catboost'', ''eda'',
     ''statistical analysis'', ''sql'', ''mysql'', ''postgres'', ''postgresql'',
     ''mongodb'', ''redis'', ''cassandra'', ''dynamodb'', ''elasticsearch'', ''aws'',
     ''azure'', ''gcp'', ''docker'', ''kubernetes'', ''jenkins'', ''gitlab'', ''github'',
     ''circleci'', ''spark'', ''hadoop'', ''kafka'', ''airflow'', ''dbt'', ''hive'',
     ''presto'', ''pytorch'', ''tensorflow'', ''keras'', ''torch'', ''onnx'',
     ''transformers'', ''hugging face'', ''bert'', ''gpt'', ''llm'', ''langchain'',
     ''faiss'', ''rag'', ''llama'', ''openai'', ''spacy'', ''nltk'', ''gensim'',
     ''textblob'', ''tokenization'', ''nlp'', ''ner'', ''sentiment'', ''opencv'',
     ''opencv-python'', ''yolo'', ''yolov8'', ''yolov5'', ''yolov3'', ''cnn'', ''deepsort'',
     ''react'', ''vue'', ''angular'', ''svelte'', ''html'', ''css'', ''sass'',
     ''bootstrap'', ''tailwind'', ''d3.js'', ''git'', ''jupyter'', ''notebook'',
     ''jupyter notebook'', ''jira'', ''confluence'', ''notion'', ''linux'', ''bash'',
     ''shell'', ''powershell'', ''windows'', ''mac'', ''macos'', ''power bi'', ''powerbi'',
     ''tableau'', ''looker'', ''qlik'', ''excel'', ''vba'', ''regression'',
     ''classification'', ''random forest'', ''lstm'', ''rnn'', ''cnn'', ''gan'', ''mlops'',
     ''time series'', ''forecasting'', ''clustering'', ''pca'', ''kmeans'', ''ensemble'',
     ''cross validation'', ''fine-tuning'', ''prompt engineering'', ''vector databases'',
     ''embeddings'', ''retrieval augmented'']"

text \<open>
  The source searches the pattern \<open>r'\b' + re.escape(tech) + r'\b'\<close>. The escaped
  term matches exactly the characters of \<open>tech\<close>, and \<open>\b\<close> matches the empty
  string at a position where exactly one of the two neighbouring characters is a word
  character (a position outside the string counts as a non-word character). So the
  search succeeds iff \<open>tech\<close> occurs at some index with a boundary before and after.
\<close>

definition word_at :: "string \<Rightarrow> nat \<Rightarrow> bool" where
  "word_at s i = (i < length s \<and> is_word (s ! i))"

definition word_boundary :: "string \<Rightarrow> nat \<Rightarrow> bool" where
  "word_boundary s i = ((0 < i \<and> word_at s (i - 1)) \<noteq> word_at s i)"

definition occurs_at :: "string \<Rightarrow> string \<Rightarrow> nat \<Rightarrow> bool" where
  "occurs_at s lit i = (i + length lit \<le> length s \<and> take (length lit) (drop i s) = lit)"

definition bounded_match_at :: "string \<Rightarrow> string \<Rightarrow> nat \<Rightarrow> bool" where
  "bounded_match_at s lit i =
     (occurs_at s lit i \<and> word_boundary s i \<and> word_boundary s (i + length lit))"

definition re_search_bounded :: "string \<Rightarrow> string \<Rightarrow> bool" where
  "re_search_bounded lit s = list_ex (bounded_match_at s lit) [0 ..< Suc (length s)]"

text \<open>The detected terms are collected in a set and returned sorted.\<close>

definition extract_skills_from_text :: "string \<Rightarrow> string list" where
  "extract_skills_from_text text =
     (let text_lower = py_lower text
      in sort (remdups (filter (\<lambda>tech. re_search_bounded tech text_lower) TECH_WORDS)))"

section \<open>Text normalisation (text_cleaner.py) and the job-description skills (skill_matcher.py)\<close>

text \<open>\<open>re.sub(r"\s+", " ", t)\<close>: every maximal run of whitespace becomes one space.
  The flag says that the previous character was whitespace.\<close>

fun collapse_from :: "bool \<Rightarrow> string \<Rightarrow> string" where
  "collapse_from prev [] = []"
| "collapse_from prev (c # cs) =
     (if is_space c
      then (if prev then collapse_from True cs else CHR '' '' # collapse_from True cs)
      else c # collapse_from False cs)"

definition collapse_ws :: "string \<Rightarrow> string" where
  "collapse_ws s = collapse_from False s"

definition normalize_text :: "string \<Rightarrow> string" where
  "normalize_text text =
     (let t = py_lower text;
          t = map (\<lambda>c. if is_lower c \<or> is_digit c \<or> c \<in> set ''+#.'' \<or> is_space c
                        then c else CHR '' '') t
      in py_strip (collapse_ws t))"

definition DEFAULT_SKILL_VOCAB :: "string list" where
  "DEFAULT_SKILL_VOCAB = [
     ''python'', ''fastapi'', ''flask'', ''django'', ''nlp'', ''spacy'', ''nltk'', ''bert'',
     ''transformers'', ''pandas'', ''numpy'', ''sql'', ''mongodb'', ''postgres'', ''aws'',
     ''docker'', ''kubernetes'', ''spark'']"

text \<open>\<open>extract_skills_from_text\<close> of skill_matcher.py (the name is taken by the
  function of extractor.py).\<close>

definition jd_extract_skills_from_text :: "string \<Rightarrow> string list" where
  "jd_extract_skills_from_text text =
     (let t = normalize_text text;
          tokens = set (py_split_ws t)
      in sort (filter (\<lambda>s. s \<in> tokens) DEFAULT_SKILL_VOCAB))"

section \<open>Occurrences of a term and their neighbours\<close>

text \<open>
  An occurrence of length \<open>n\<close> at index \<open>i\<close> cuts a word when a word character of
  the occurrence touches a word character outside it, at its start or at its end: the
  occurrence is then a proper part of a longer word.
\<close>

definition cuts_word :: "string \<Rightarrow> nat \<Rightarrow> nat \<Rightarrow> bool" where
  "cuts_word s i n =
     ((0 < i \<and> word_at s (i - 1) \<and> word_at s i)
      \<or> (0 < n \<and> word_at s (i + n - 1) \<and> word_at s (i + n)))"

text \<open>ASCII punctuation, as in \<open>string.punctuation\<close>; the underscore is one of them.\<close>

definition is_punct :: "char \<Rightarrow> bool" where
  "is_punct c = ((CHR 0x21 \<le> c \<and> c \<le> CHR 0x2F) \<or> (CHR 0x3A \<le> c \<and> c \<le> CHR 0x40)
                 \<or> (CHR 0x5B \<le> c \<and> c \<le> CHR 0x60) \<or> (CHR 0x7B \<le> c \<and> c \<le> CHR 0x7E))"

definition space_or_punct :: "char \<Rightarrow> bool" where
  "space_or_punct c = (is_space c \<or> is_punct c)"

text \<open>Whitespace, or punctuation other than the underscore.\<close>

definition space_or_other_punct :: "char \<Rightarrow> bool" where
  "space_or_other_punct c = (is_space c \<or> (is_punct c \<and> c \<noteq> CHR ''_''))"

text \<open>
  \<open>followed_by ok s lit\<close>: every occurrence of \<open>lit\<close> in \<open>s\<close> ends at the end of
  \<open>s\<close> or is followed by a character that satisfies \<open>ok\<close>.
\<close>

definition followed_by :: "(char \<Rightarrow> bool) \<Rightarrow> string \<Rightarrow> string \<Rightarrow> bool" where
  "followed_by ok s lit =
     list_all (\<lambda>i. occurs_at s lit i \<longrightarrow> i + length lit = length s \<or> ok (s ! (i + length lit)))
       [0 ..< Suc (length s)]"

section \<open>Section segmentation (extractor.py)\<close>

text \<open>\<open>SECTION_KEYWORDS\<close>: a dictionary, kept as an association list in insertion order,
  which is the order in which the source iterates over its keys.\<close>

definition SECTION_KEYWORDS :: "(string \<times> string list) list" where
  "SECTION_KEYWORDS = [
     (''contact'', [''contact'', ''phone'', ''email'', ''linkedin'', ''github'', ''address'',
        ''location'']),
     (''summary'', [''summary'', ''objective'', ''profile'', ''about'', ''professional summary'',
        ''executive summary'']),
     (''education'', [''education'', ''degree'', ''university'', ''college'', ''b.tech'', ''btech'',
        ''bachelor'', ''master'', ''m.tech'', ''mtech'', ''certification'', ''course'', ''gpa'',
        ''cgpa'']),
     (''experience'', [''experience'', ''work'', ''employment'', ''professional'', ''job'',
        ''position'', ''worked as'', ''worked on'']),
     (''projects'', [''projects'', ''project'', ''portfolio'', ''capstone'', ''case study'',
        ''assignment'']),
     (''skills'', [''skills'', ''technical'', ''technologies'', ''competencies'', ''expertise'',
        ''proficient'', ''programming'', ''tools'']),
     (''achievements'', [''achievements'', ''awards'', ''recognitions'', ''publications'',
        ''certifications'', ''honors'', ''accomplishments''])]"

definition detect_section_start :: "string \<Rightarrow> string \<Rightarrow> bool" where
  "detect_section_start line section =
     (let line_lower = py_strip (py_lower line)
      in if \<not> py_in '':'' line \<and> \<not> py_endswith line_lower ''s'' then False
         else
           (let keywords = (case map_of SECTION_KEYWORDS section of Some kws \<Rightarrow> kws | None \<Rightarrow> [])
            in list_ex (\<lambda>kw. py_in kw line_lower) keywords))"

text \<open>The inner loop of \<open>split_resume_by_sections\<close>: the first section name, in the
  order of the table, for which the line is a header.\<close>

definition detected_section :: "string \<Rightarrow> string option" where
  "detected_section line = find (detect_section_start line) (map fst SECTION_KEYWORDS)"

type_synonym sections = "(string \<times> string) list"

text \<open>The loop over the lines, with the state of the source: the dictionary
  \<open>sections\<close>, \<open>current_section\<close> and \<open>current_content\<close>. An assignment
  \<open>sections[k] = v\<close> replaces the value stored under \<open>k\<close>.\<close>

fun split_loop :: "sections \<Rightarrow> string \<Rightarrow> string list \<Rightarrow> string list \<Rightarrow> sections" where
  "split_loop sections current_section current_content [] =
     AList.update current_section (py_strip (py_join ''\<newline>'' current_content)) sections"
| "split_loop sections current_section current_content (line # lines) =
     (case detected_section line of
        Some detected \<Rightarrow>
          split_loop
            (AList.update current_section (py_strip (py_join ''\<newline>'' current_content)) sections)
            detected [line] lines
      | None \<Rightarrow> split_loop sections current_section (current_content @ [line]) lines)"

definition split_resume_by_sections :: "string \<Rightarrow> sections" where
  "split_resume_by_sections text =
     (let sections = map (\<lambda>k. (k, [])) (map fst SECTION_KEYWORDS) @ [(''other'', [])];
          lines = py_split (CHR 0x0A) text
      in split_loop sections ''contact'' [] lines)"

section \<open>Profiles and the merge of hyperlinks (extractor.py, upload.py)\<close>

record online_profile =
  label :: string
  url :: string

definition PROFILE_LABELS :: "(string \<times> string) list" where
  "PROFILE_LABELS = [
     (''linkedin'', ''LinkedIn''), (''github'', ''GitHub''), (''portfolio'', ''Portfolio''),
     (''medium'', ''Medium''), (''kaggle'', ''Kaggle''), (''leetcode'', ''LeetCode''),
     (''codeforces'', ''Codeforces''), (''gitlab'', ''GitLab''), (''bitbucket'', ''Bitbucket'')]"

definition label_url :: "string \<Rightarrow> string" where
  "label_url u =
     (case find (\<lambda>(key, lbl). py_in key (py_lower u)) PROFILE_LABELS of
        Some (key, lbl) \<Rightarrow> lbl
      | None \<Rightarrow> ''Website'')"

text \<open>The loop of \<open>upload_resume\<close> over the hyperlinks \<open>(link_text, url)\<close>, on the list
  \<open>resume_obj.online_profiles\<close>. The guard \<open>if hyperlinks\<close> skips an empty list, on
  which the loop does nothing.\<close>

fun merge_hyperlinks :: "online_profile list \<Rightarrow> (string \<times> string) list \<Rightarrow> online_profile list" where
  "merge_hyperlinks profiles [] = profiles"
| "merge_hyperlinks profiles ((link_text, u) # hyperlinks) =
     (if u \<noteq> [] \<and> \<not> list_ex (\<lambda>p. url p = u) profiles
      then merge_hyperlinks (profiles @ [\<lparr>label = label_url u, url = u\<rparr>]) hyperlinks
      else merge_hyperlinks profiles hyperlinks)"

section \<open>Floating point (the arithmetic of scoring.py)\<close>

text \<open>
  A Python \<open>float\<close> is an IEEE 754 double. Its value is modelled as a rational number,
  and each operation returns the exact result rounded to the nearest double, ties to the
  even significand. The exponent range is not modelled: the numbers of scoring.py are
  quotients of list lengths and lie far from overflow and from the subnormal range.

  \<open>rhe\<close> rounds to the nearest integer, ties to the even one.
\<close>

definition rhe :: "rat \<Rightarrow> int" where
  "rhe x =
     (let f = \<lfloor>x\<rfloor>; r = x - of_int f
      in if r < 1 / 2 then f else if 1 / 2 < r then f + 1 else if even f then f else f + 1)"

text \<open>\<open>expo x\<close> is the binary exponent of a positive \<open>x\<close>: \<open>2 powi expo x \<le> x < 2 powi (expo x + 1)\<close>.
  The bit lengths of numerator and denominator give it up to one, and a comparison decides.\<close>

definition expo :: "rat \<Rightarrow> int" where
  "expo x =
     (let (p, q) = quotient_of x; k = bitlen p - bitlen q
      in if 2 powi k \<le> x then k else k - 1)"

text \<open>\<open>fl x\<close> is the double nearest to \<open>x\<close>: a significand of 53 bits, so the unit in the
  last place is \<open>2 powi (expo x - 52)\<close>.\<close>

definition fl :: "rat \<Rightarrow> rat" where
  "fl x =
     (if x = 0 then 0
      else (let a = \<bar>x\<bar>; u = 2 powi (expo a - 52)
            in sgn x * (of_int (rhe (a / u)) * u)))"

text \<open>\<open>a / b\<close> on two non-negative integers with \<open>b\<close> not zero (true division is
  correctly rounded), \<open>x * y\<close> on floats, and \<open>round(x, 2)\<close>: the exact value of \<open>x\<close> is
  rounded to two decimals, ties to even, and the decimal is converted to the nearest
  double.\<close>

definition py_truediv :: "nat \<Rightarrow> nat \<Rightarrow> rat" where
  "py_truediv a b = fl (of_nat a / of_nat b)"

definition py_fmul :: "rat \<Rightarrow> rat \<Rightarrow> rat" where
  "py_fmul x y = fl (x * y)"

definition py_round2 :: "rat \<Rightarrow> rat" where
  "py_round2 x = fl (of_int (rhe (x * 100)) / 100)"

section \<open>Compatibility score (scoring.py)\<close>

text \<open>The two skill sets are Python sets of lower-cased strings; \<open>sorted\<close> lists a set in
  ascending order of the strings.\<close>

definition compute_compatibility :: "string list \<Rightarrow> string list \<Rightarrow> rat \<times> string list \<times> string list" where
  "compute_compatibility resume_skills jd_skills =
     (let rs = set (map py_lower resume_skills);
          js = set (map py_lower jd_skills);
          matched = sorted_list_of_set (rs \<inter> js);
          missing = sorted_list_of_set (js - rs);
          denom = max 1 (card js);
          score = py_fmul 10 (py_truediv (length matched) denom)
      in (py_round2 score, matched, missing))"

section \<open>Regular expressions of extractor.py\<close>

text \<open>
  The three compiled patterns of the source use character classes with greedy bounded
  repetition, optional non-capturing groups and one top-level alternation. A pattern is
  a list of alternatives, an alternative a list of items. \<open>Rep c lo hi\<close> is the class
  \<open>c\<close> repeated at least \<open>lo\<close> times and at most \<open>hi\<close> times (\<open>None\<close>: no bound);
  \<open>Opt as\<close> is the optional group \<open>(?:...)?\<close>. Matching is the backtracking search of
  Python's \<open>re\<close>: a repetition takes as many characters as it can and gives them back
  one at a time while the rest of the pattern fails, an optional group is tried before
  it is skipped, and the alternatives are tried in order.
\<close>

datatype atom = Rep "char \<Rightarrow> bool" nat "nat option"

datatype item = Atom atom | Opt "atom list"

fun first_some :: "(nat \<Rightarrow> 'a option) \<Rightarrow> nat list \<Rightarrow> 'a option" where
  "first_some f [] = None"
| "first_some f (k # ks) = (case f k of Some r \<Rightarrow> Some r | None \<Rightarrow> first_some f ks)"

text \<open>The matchers take the matcher \<open>k\<close> of the rest of the pattern and return the
  rest of the string after the first way, in the order of the backtracking search, in
  which the whole matches a prefix of \<open>s\<close>.\<close>

fun match_atom :: "atom \<Rightarrow> (string \<Rightarrow> string option) \<Rightarrow> string \<Rightarrow> string option" where
  "match_atom (Rep c lo hi) k s =
     (let avail = length (takeWhile c s);
          most = (case hi of None \<Rightarrow> avail | Some h \<Rightarrow> min h avail)
      in first_some (\<lambda>n. k (drop n s)) (rev [lo ..< Suc most]))"

fun match_atoms :: "atom list \<Rightarrow> (string \<Rightarrow> string option) \<Rightarrow> string \<Rightarrow> string option" where
  "match_atoms [] k s = k s"
| "match_atoms (a # as) k s = match_atom a (match_atoms as k) s"

fun match_item :: "item \<Rightarrow> (string \<Rightarrow> string option) \<Rightarrow> string \<Rightarrow> string option" where
  "match_item (Atom a) k s = match_atom a k s"
| "match_item (Opt as) k s =
     (case match_atoms as k s of Some r \<Rightarrow> Some r | None \<Rightarrow> k s)"

fun match_items :: "item list \<Rightarrow> string \<Rightarrow> string option" where
  "match_items [] s = Some s"
| "match_items (it # rest) s = match_item it (match_items rest) s"

text \<open>\<open>re.search\<close>: the leftmost start at which some alternative matches; the result is
  \<open>match.group(0)\<close>.\<close>

fun match_alts :: "item list list \<Rightarrow> string \<Rightarrow> string option" where
  "match_alts [] s = None"
| "match_alts (p # ps) s =
     (case match_items p s of
        Some r \<Rightarrow> Some (take (length s - length r) s)
      | None \<Rightarrow> match_alts ps s)"

fun re_search :: "item list list \<Rightarrow> string \<Rightarrow> string option" where
  "re_search pat [] = match_alts pat []"
| "re_search pat (c # cs) =
     (case match_alts pat (c # cs) of
        Some m \<Rightarrow> Some m
      | None \<Rightarrow> re_search pat cs)"

text \<open>\<open>re.findall\<close> for a pattern without groups: the matches from left to right, each
  search starting where the previous match ended. \<open>skip\<close> counts the characters of the
  previous match that are still to pass.\<close>

fun findall_from :: "nat \<Rightarrow> item list list \<Rightarrow> string \<Rightarrow> string list" where
  "findall_from skip pat [] =
     (if skip = 0 then (case match_alts pat [] of Some m \<Rightarrow> [m] | None \<Rightarrow> []) else [])"
| "findall_from (Suc k) pat (c # cs) = findall_from k pat cs"
| "findall_from 0 pat (c # cs) =
     (case match_alts pat (c # cs) of
        Some m \<Rightarrow> m # findall_from (length m - 1) pat cs
      | None \<Rightarrow> findall_from 0 pat cs)"

definition re_findall :: "item list list \<Rightarrow> string \<Rightarrow> string list" where
  "re_findall pat s = findall_from 0 pat s"

definition lit_items :: "string \<Rightarrow> item list" where
  "lit_items s = map (\<lambda>c. Atom (Rep (\<lambda>x. x = c) 1 (Some 1))) s"

definition is_alnum :: "char \<Rightarrow> bool" where
  "is_alnum c = (is_alpha c \<or> is_digit c)"

text \<open>\<open>[a-zA-Z0-9_.+-]+@[a-zA-Z0-9-]+\.[a-zA-Z0-9-.]+\<close>\<close>

definition EMAIL_RE :: "item list list" where
  "EMAIL_RE =
     [[Atom (Rep (\<lambda>c. is_alnum c \<or> c \<in> set ''_.+-'') 1 None)]
      @ lit_items ''@''
      @ [Atom (Rep (\<lambda>c. is_alnum c \<or> c = CHR ''-'') 1 None)]
      @ lit_items ''.''
      @ [Atom (Rep (\<lambda>c. is_alnum c \<or> c \<in> set ''-.'') 1 None)]]"

text \<open>\<open>(?:\+\d{1,3}[\s.-]?)?(?:\d{2,4}[\s.-]?)?\d{3}[\s.-]?\d{3,4}[\s.-]?\d{3,4}|\+\d{1,3}\s?\d{6,14}\<close>\<close>

definition is_sep :: "char \<Rightarrow> bool" where
  "is_sep c = (is_space c \<or> c \<in> set ''.-'')"

definition PHONE_RE :: "item list list" where
  "PHONE_RE =
     [[Opt [Rep (\<lambda>c. c = CHR ''+'') 1 (Some 1), Rep is_digit 1 (Some 3), Rep is_sep 0 (Some 1)],
       Opt [Rep is_digit 2 (Some 4), Rep is_sep 0 (Some 1)],
       Atom (Rep is_digit 3 (Some 3)), Atom (Rep is_sep 0 (Some 1)),
       Atom (Rep is_digit 3 (Some 4)), Atom (Rep is_sep 0 (Some 1)),
       Atom (Rep is_digit 3 (Some 4))],
      lit_items ''+'' @ [Atom (Rep is_digit 1 (Some 3)), Atom (Rep is_space 0 (Some 1)),
       Atom (Rep is_digit 6 (Some 14))]]"

text \<open>\<open>https?://[^\s]+\<close>\<close>

definition URL_RE :: "item list list" where
  "URL_RE =
     [lit_items ''http'' @ [Atom (Rep (\<lambda>c. c = CHR ''s'') 0 (Some 1))] @ lit_items ''://''
      @ [Atom (Rep (\<lambda>c. \<not> is_space c) 1 None)]]"

definition extract_email :: "string \<Rightarrow> string" where
  "extract_email text = (case re_search EMAIL_RE text of Some m \<Rightarrow> m | None \<Rightarrow> [])"

definition extract_phone :: "string \<Rightarrow> string" where
  "extract_phone text = (case re_search PHONE_RE text of Some m \<Rightarrow> m | None \<Rightarrow> [])"

text \<open>\<open>s.replace(old, new)\<close>: the occurrences of \<open>old\<close> from left to right, without
  overlap. \<open>skip\<close> counts the characters of the last occurrence that are still to pass.\<close>

fun replace_from :: "nat \<Rightarrow> string \<Rightarrow> string \<Rightarrow> string \<Rightarrow> string" where
  "replace_from skip old new [] = []"
| "replace_from (Suc k) old new (c # cs) = replace_from k old new cs"
| "replace_from 0 old new (c # cs) =
     (if py_startswith (c # cs) old then new @ replace_from (length old - 1) old new cs
      else c # replace_from 0 old new cs)"

definition py_replace :: "string \<Rightarrow> string \<Rightarrow> string \<Rightarrow> string" where
  "py_replace s old new =
     (if old = [] then new @ concat (map (\<lambda>c. c # new) s) else replace_from 0 old new s)"

section \<open>The resume schema (resume_schema.py)\<close>

record project =
  project_name :: string
  technologies :: "string list"

record resume =
  name :: string
  email :: string
  phone :: string
  online_profiles :: "online_profile list"
  experience_summary :: "string option"
  projects :: "project list"
  skills :: "string list"
  achievements :: "string list option"

section \<open>Profiles, projects and achievements (extractor.py)\<close>

text \<open>The list \<open>profile_mentions\<close> of the source is computed and never used.\<close>

definition extract_profiles_from_text :: "string \<Rightarrow> online_profile list" where
  "extract_profiles_from_text text =
     map (\<lambda>u. \<lparr>label = label_url u, url = u\<rparr>) (re_findall URL_RE text)"

text \<open>The bullet literal of the source, as the bytes of its UTF-8 encoding.\<close>

definition bullet :: string where
  "bullet = [CHR 0xC3, CHR 0xA2, CHR 0xE2, CHR 0x82, CHR 0xAC, CHR 0xC2, CHR 0xA2]"

datatype py_error = IndexError | OSError

text \<open>The test of the \<open>while\<close> loop of \<open>extract_projects_from_text\<close> on a stripped line.\<close>

definition project_start :: "string \<Rightarrow> bool" where
  "project_start line =
     (list_ex (\<lambda>hint. py_in hint (py_lower line)) [''project:'', bullet @ '' '']
      \<or> (line \<noteq> [] \<and> \<not> is_digit (hd line) \<and> 5 < length line
          \<and> list_ex (\<lambda>tech. py_in (py_lower tech) (py_lower line)) (take 10 TECH_WORDS)))"

text \<open>The body of the loop for a project line: the project it appends, if any.\<close>

definition project_of_line :: "string \<Rightarrow> project option" where
  "project_of_line line =
     (let techs = filter (\<lambda>t. py_in (py_lower t) (py_lower line)) TECH_WORDS;
          pn = foldl (\<lambda>pn tech. py_strip (py_replace (py_lower pn) (py_lower tech) [])) line techs;
          pn = py_strip (py_replace (py_replace pn bullet []) ''project:'' []);
          pn = py_strip (hd (py_split (CHR ''('') pn))
      in if pn \<noteq> [] \<and> 3 < length pn
         then Some \<lparr>project_name = take 150 pn, technologies = take 10 (sort (remdups techs))\<rparr>
         else None)"

definition extract_projects_from_text :: "string \<Rightarrow> project list" where
  "extract_projects_from_text text =
     take 10
       (List.map_filter
          (\<lambda>l. let line = py_strip l in if project_start line then project_of_line line else None)
          (py_split (CHR 0x0A) text))"

text \<open>
  The loop of \<open>extract_achievements_from_text\<close>. The test of the source is
  \<open>line.startswith(bullet) or line.startswith('-') or line[0].isdigit() and '.' in line[:3]\<close>:
  on an empty line the first two tests are false and \<open>line[0]\<close> raises \<open>IndexError\<close>.
\<close>

definition achievement_of_line :: "string \<Rightarrow> string list" where
  "achievement_of_line line =
     (let achievement = py_strip (py_lstrip_chars (bullet @ ''-0123456789. '') line)
      in if achievement \<noteq> [] \<and> 10 < length achievement then [take 200 achievement] else [])"

fun achievements_loop :: "string list \<Rightarrow> string list \<Rightarrow> py_error + string list" where
  "achievements_loop acc [] = Inr acc"
| "achievements_loop acc (l # ls) =
     (let line = py_strip l
      in if py_startswith line bullet \<or> py_startswith line ''-''
         then achievements_loop (acc @ achievement_of_line line) ls
         else if line = [] then Inl IndexError
         else if is_digit (line ! 0) \<and> py_in ''.'' (take 3 line)
         then achievements_loop (acc @ achievement_of_line line) ls
         else achievements_loop acc ls)"

definition extract_achievements_from_text :: "string \<Rightarrow> py_error + string list" where
  "extract_achievements_from_text text =
     (case achievements_loop [] (py_split (CHR 0x0A) text) of
        Inl e \<Rightarrow> Inl e
      | Inr found \<Rightarrow> Inr (take 10 found))"

section \<open>The rule-based analysis (skill_matcher.py)\<close>

record job_description =
  title :: string
  description :: string

record analysis_result =
  compatibility_score :: rat
  matched_skills :: "string list"
  missing_skills :: "string list"
  irrelevant_content :: "string list"
  suggestions :: "(string \<times> string list) list"

definition analyze_resume_vs_jd :: "resume \<Rightarrow> job_description \<Rightarrow> analysis_result" where
  "analyze_resume_vs_jd r jd =
     (let jd_skills = jd_extract_skills_from_text (title jd @ ''\<newline>'' @ description jd);
          (score, matched, missing) = compute_compatibility (skills r) jd_skills;
          irrelevant = filter (\<lambda>s. s \<notin> set jd_skills) (skills r)
      in \<lparr>compatibility_score = score, matched_skills = matched, missing_skills = missing,
          irrelevant_content = irrelevant,
          suggestions = [(''add'', missing), (''remove'', [])]\<rparr>)"


section \<open>The diagnostic report and the assembly of the record (extractor.py)\<close>

text \<open>
  \<open>save_extracted_data\<close> creates the directory \<open>results\<close>, opens a file named after the
  current time and writes the report to it. It returns \<open>None\<close> and reads nothing back, so
  for its caller it is determined by which of these operations the file system lets
  succeed; each of them raises \<open>OSError\<close> when it fails. The file system is a parameter
  of the model: whether \<open>os.makedirs\<close>, \<open>open\<close> and the writes succeed.
\<close>

record file_system =
  makedirs_ok :: bool
  open_ok :: bool
  write_ok :: bool

definition save_extracted_data :: "file_system \<Rightarrow> string \<Rightarrow> resume \<Rightarrow> py_error + unit" where
  "save_extracted_data fs text extracted =
     (if \<not> makedirs_ok fs then Inl OSError
      else if \<not> open_ok fs then Inl OSError
      else if \<not> write_ok fs then Inl OSError
      else Inr ())"

text \<open>\<open>d.get(key, default)\<close>.\<close>

definition py_get :: "('k \<times> 'v) list \<Rightarrow> 'k \<Rightarrow> 'v \<Rightarrow> 'v" where
  "py_get d key dflt = (case map_of d key of Some v \<Rightarrow> v | None \<Rightarrow> dflt)"

text \<open>\<open>x or y\<close> on strings.\<close>

definition py_or :: "string \<Rightarrow> string \<Rightarrow> string" where
  "py_or x y = (if x \<noteq> [] then x else y)"

text \<open>
  \<open>extract_resume_info\<close>. The calls are made in the order of the source; the only ones
  that can raise are \<open>extract_achievements_from_text\<close> and \<open>save_extracted_data\<close>, and an
  exception of either leaves the function at once.
\<close>

definition extract_resume_info :: "file_system \<Rightarrow> string \<Rightarrow> py_error + resume" where
  "extract_resume_info fs text =
     (let name_v = extract_name_robust text;
          email_v = extract_email text;
          phone_v = extract_phone text;
          sections = split_resume_by_sections text;
          summary = py_strip (py_get sections ''summary'' []);
          summary =
            (if summary = [] then
               (let lines = filter (\<lambda>l. l \<noteq> [] \<and> 20 < length l)
                              (map py_strip (py_split (CHR 0x0A) text))
                in if 2 < length lines then take 300 (lines ! 1) else summary)
             else summary);
          profiles = extract_profiles_from_text text;
          skills_v = extract_skills_from_text text;
          projects_v = extract_projects_from_text (py_get sections ''projects'' text)
      in case extract_achievements_from_text (py_get sections ''achievements'' text) of
           Inl e \<Rightarrow> Inl e
         | Inr found \<Rightarrow>
             (let resume_obj =
                    \<lparr>name = py_or name_v ''NOT EXTRACTED'',
                     email = py_or email_v [],
                     phone = py_or phone_v [],
                     online_profiles = profiles,
                     experience_summary = (if summary \<noteq> [] then Some summary else None),
                     projects = projects_v,
                     skills = skills_v,
                     achievements = (if found \<noteq> [] then Some found else None)\<rparr>
              in case save_extracted_data fs text resume_obj of
                   Inl e \<Rightarrow> Inl e
                 | Inr u \<Rightarrow> Inr resume_obj))"

section \<open>Properties of the floating-point model\<close>

lemma rhe_le: "x \<le> of_int n \<Longrightarrow> rhe x \<le> n"
proof -
  assume a: "x \<le> of_int n"
  then have f: "\<lfloor>x\<rfloor> \<le> n" by (simp add: floor_le_iff) 
  show ?thesis
  proof (cases "x = of_int \<lfloor>x\<rfloor>")
    case True
    then have "rhe x = \<lfloor>x\<rfloor>" by (simp add: rhe_def Let_def)
    with f show ?thesis by simp
  next
    case False
    then have "of_int \<lfloor>x\<rfloor> < x" using of_int_floor_le [of x] by linarith
    with a have "(of_int \<lfloor>x\<rfloor> :: rat) < of_int n" by linarith
    then have "\<lfloor>x\<rfloor> < n" by simp
    moreover have "rhe x \<le> \<lfloor>x\<rfloor> + 1" by (simp add: rhe_def Let_def)
    ultimately show ?thesis by linarith
  qed
qed

lemma rhe_ge: "of_int n \<le> x \<Longrightarrow> n \<le> rhe x"
proof -
  assume "of_int n \<le> x"
  then have "n \<le> \<lfloor>x\<rfloor>" by (simp add: le_floor_iff)
  moreover have "\<lfloor>x\<rfloor> \<le> rhe x" by (simp add: rhe_def Let_def)
  ultimately show ?thesis by linarith
qed

lemma rhe_err: "\<bar>of_int (rhe x) - x\<bar> \<le> 1 / 2"
proof -
  have "of_int \<lfloor>x\<rfloor> \<le> x" "x < of_int \<lfloor>x\<rfloor> + 1" by linarith+
  then show ?thesis by (auto simp: rhe_def Let_def)
qed


lemma pow2_nat_powi: "0 \<le> n \<Longrightarrow> (2::rat) ^ nat n = 2 powi n"
  by (simp add: power_int_def)

lemma bitlen_bounds_rat:
  assumes "0 < p"
  shows "(2::rat) powi (bitlen p - 1) \<le> of_int p" and "of_int p < (2::rat) powi (bitlen p)"
proof -
  from assms have b1: "1 \<le> bitlen p" by (auto simp: bitlen_alt_def)
  from bitlen_bounds [OF assms] have lo: "2 ^ nat (bitlen p - 1) \<le> p" and hi: "p < 2 ^ nat (bitlen p)"
    by simp_all
  from lo have "(of_int (2 ^ nat (bitlen p - 1)) :: rat) \<le> of_int p" by (simp only: of_int_le_iff)
  then show "(2::rat) powi (bitlen p - 1) \<le> of_int p"
    using b1 by (simp add: power_int_def)
  from hi have "(of_int p :: rat) < of_int (2 ^ nat (bitlen p))" by (simp only: of_int_less_iff)
  then show "of_int p < (2::rat) powi (bitlen p)"
    using b1 by (simp add: power_int_def)
qed

lemma expo_bounds:
  assumes "0 < x"
  shows "2 powi (expo x) \<le> x" and "x < 2 powi (expo x + 1)"
proof -
  obtain p q where pq: "quotient_of x = (p, q)" by (cases "quotient_of x")
  then have q: "0 < q" by (rule quotient_of_denom_pos)
  from pq have x: "x = of_int p / of_int q" by (rule quotient_of_div)
  have p: "0 < p"
  proof (rule ccontr)
    assume "\<not> 0 < p"
    then have "(of_int p :: rat) \<le> 0" by simp
    then have "x \<le> 0" using q x by (simp add: divide_le_0_iff)
    with assms show False by simp
  qed
  define k where "k = bitlen p - bitlen q"
  have qr: "(0::rat) < of_int q" using q by simp
  have up: "x < 2 powi (k + 1)"
  proof -
    have "of_int p < (2::rat) powi (bitlen p)" by (rule bitlen_bounds_rat [OF p])
    also have "\<dots> = 2 powi (k + 1) * 2 powi (bitlen q - 1)"
      by (simp add: k_def power_int_add [symmetric])
    also have "\<dots> \<le> 2 powi (k + 1) * of_int q"
      using bitlen_bounds_rat(1) [OF q] by (intro mult_left_mono) simp_all
    finally show ?thesis using qr by (simp add: x pos_divide_less_eq)
  qed
  have lo: "2 powi (k - 1) \<le> x"
  proof -
    have "2 powi (k - 1) * of_int q \<le> 2 powi (k - 1) * (2::rat) powi (bitlen q)"
      using bitlen_bounds_rat(2) [OF q] by (intro mult_left_mono) simp_all
    also have "\<dots> = 2 powi (bitlen p - 1)"
      by (simp add: k_def power_int_add [symmetric])
    also have "\<dots> \<le> of_int p" by (rule bitlen_bounds_rat [OF p])
    finally show ?thesis using qr by (simp add: x pos_le_divide_eq)
  qed
  have e: "expo x = (if 2 powi k \<le> x then k else k - 1)"
    by (simp add: expo_def pq k_def Let_def)
  show "2 powi (expo x) \<le> x" using lo by (simp add: e)
  show "x < 2 powi (expo x + 1)" using up by (auto simp: e not_le)
qed

lemma expo_less: "0 < x \<Longrightarrow> x < 2 powi n \<Longrightarrow> expo x < n"
proof (rule ccontr)
  assume x: "0 < x" "x < 2 powi n" and "\<not> expo x < n"
  then have "n \<le> expo x" by simp
  then have "(2::rat) powi n \<le> 2 powi (expo x)" by (intro power_int_increasing) simp_all
  also have "\<dots> \<le> x" by (rule expo_bounds [OF x(1)])
  finally show False using x(2) by simp
qed

lemma fl_pos: "0 < x \<Longrightarrow> fl x = of_int (rhe (x / 2 powi (expo x - 52))) * 2 powi (expo x - 52)"
  by (simp add: fl_def Let_def)

lemma fl_zero: "fl 0 = 0"
  by (simp add: fl_def)

lemma fl_nonneg: "0 \<le> x \<Longrightarrow> 0 \<le> fl x"
proof (cases "x = 0")
  case True
  then show ?thesis by (simp add: fl_zero)
next
  case False
  assume "0 \<le> x"
  with False have x: "0 < x" by simp
  have "of_int 0 \<le> x / 2 powi (expo x - 52)" using x by simp
  then have "0 \<le> rhe (x / 2 powi (expo x - 52))" by (rule rhe_ge)
  then show ?thesis using x by (simp add: fl_pos)
qed

lemma fl_le_int:
  assumes x: "0 < x" and le: "x \<le> of_int c" and e: "expo x \<le> 52"
  shows "fl x \<le> of_int c"
proof -
  define u :: rat where "u = 2 powi (expo x - 52)"
  define M :: int where "M = 2 ^ nat (52 - expo x)"
  have u: "0 < u" by (simp add: u_def)
  have Mu: "of_int M * u = 1"
  proof -
    have "(of_int M :: rat) = 2 powi (52 - expo x)" using e by (simp add: M_def power_int_def)
    then have "of_int M * u = 2 powi (52 - expo x) * 2 powi (expo x - 52)" by (simp add: u_def)
    also have "\<dots> = 2 powi ((52 - expo x) + (expo x - 52))" by (rule power_int_add [symmetric]) simp
    finally show ?thesis by simp
  qed
  have "x / u \<le> of_int c / u" using le u by (simp add: divide_right_mono)
  also have "of_int c / u = of_int c * of_int M"
    using Mu u by (simp add: field_simps)
  finally have "x / u \<le> of_int (c * M)" by simp
  then have "rhe (x / u) \<le> c * M" by (rule rhe_le)
  then have "(of_int (rhe (x / u)) :: rat) \<le> of_int (c * M)" by (simp only: of_int_le_iff)
  then have "of_int (rhe (x / u)) * u \<le> of_int (c * M) * u"
    using u by (intro mult_right_mono) simp_all
  also have "\<dots> = of_int c * (of_int M * u)" by simp
  also have "\<dots> = of_int c" by (simp only: Mu mult_1_right)
  finally have "of_int (rhe (x / u)) * u \<le> of_int c" .
  moreover have "fl x = of_int (rhe (x / u)) * u" unfolding u_def by (rule fl_pos [OF x])
  ultimately show ?thesis by simp
qed

lemma fl_err:
  assumes x: "0 < x"
  shows "\<bar>fl x - x\<bar> \<le> x / 2 ^ 53"
proof -
  define u :: rat where "u = 2 powi (expo x - 52)"
  have u: "0 < u" by (simp add: u_def)
  have "u * 2 ^ 52 = 2 powi (expo x - 52) * 2 powi 52" by (simp add: u_def)
  also have "\<dots> = 2 powi ((expo x - 52) + 52)" by (rule power_int_add [symmetric]) simp
  also have "\<dots> \<le> x" using expo_bounds(1) [OF x] by simp
  finally have ux: "u * 2 ^ 52 \<le> x" .
  have "fl x - x = (of_int (rhe (x / u)) - x / u) * u"
    using u x by (simp add: fl_pos u_def field_simps)
  then have "\<bar>fl x - x\<bar> = \<bar>of_int (rhe (x / u)) - x / u\<bar> * u"
    using u by (simp add: abs_mult)
  also have "\<dots> \<le> 1 / 2 * u" using rhe_err [of "x / u"] u by (intro mult_right_mono) simp_all
  also have "\<dots> \<le> x / 2 ^ 53" using ux by (simp add: field_simps)
  finally show ?thesis .
qed

section \<open>Properties of the skill extraction\<close>

lemma extract_skills_mem:
  "t \<in> set (extract_skills_from_text text)
     \<longleftrightarrow> t \<in> set TECH_WORDS \<and> re_search_bounded t (py_lower text)"
  by (simp add: extract_skills_from_text_def)

lemma re_search_bounded_iff:
  "re_search_bounded lit s \<longleftrightarrow> (\<exists>i. bounded_match_at s lit i)"
proof
  assume "re_search_bounded lit s"
  then show "\<exists>i. bounded_match_at s lit i"
    by (auto simp: re_search_bounded_def list_ex_iff)
next
  assume "\<exists>i. bounded_match_at s lit i"
  then obtain i where i: "bounded_match_at s lit i" by blast
  then have "i \<le> length s" by (simp add: bounded_match_at_def occurs_at_def)
  with i show "re_search_bounded lit s"
    unfolding re_search_bounded_def list_ex_iff
    by (intro bexI[of _ i]) (simp_all del: upt_Suc)
qed

lemma bounded_match_no_cut:
  "bounded_match_at s lit i \<Longrightarrow> occurs_at s lit i \<and> \<not> cuts_word s i (length lit)"
  by (auto simp: bounded_match_at_def word_boundary_def cuts_word_def)

lemma javascript_found:
  "re_search_bounded ''javascript'' (py_lower ''javascript developer'')"
  by code_simp

lemma java_not_found:
  "\<not> re_search_bounded ''java'' (py_lower ''javascript developer'')"
  by code_simp

text \<open>
  Claim C6. Skill extraction is word-boundary-safe: on the text "javascript developer"
  it detects "javascript" and does not detect "java"; and for every text, each detected
  term occurs in the lower-cased text at a place where it does not cut a word, so no
  term is matched as a part of a longer word.
\<close>

theorem skills_boundary_safe:
  "''javascript'' \<in> set (extract_skills_from_text ''javascript developer'')
   \<and> ''java'' \<notin> set (extract_skills_from_text ''javascript developer'')
   \<and> (\<forall>tech \<in> set (extract_skills_from_text text).
         \<exists>i. occurs_at (py_lower text) tech i
              \<and> \<not> cuts_word (py_lower text) i (length tech))"
proof (intro conjI ballI)
  show "''javascript'' \<in> set (extract_skills_from_text ''javascript developer'')"
    unfolding extract_skills_mem using javascript_found by (simp add: TECH_WORDS_def)
  show "''java'' \<notin> set (extract_skills_from_text ''javascript developer'')"
    unfolding extract_skills_mem using java_not_found by simp
next
  fix tech assume "tech \<in> set (extract_skills_from_text text)"
  then have "re_search_bounded tech (py_lower text)" by (simp add: extract_skills_mem)
  then obtain i where "bounded_match_at (py_lower text) tech i"
    by (auto simp: re_search_bounded_iff)
  then show "\<exists>i. occurs_at (py_lower text) tech i
                 \<and> \<not> cuts_word (py_lower text) i (length tech)"
    using bounded_match_no_cut by blast
qed

theorem skills_boundary_safe_witness:
  "''javascript'' \<in> set (extract_skills_from_text ''javascript developer'')
   \<and> (\<exists>i. occurs_at (py_lower ''javascript developer'') ''javascript'' i
            \<and> \<not> cuts_word (py_lower ''javascript developer'') i (length ''javascript''))"
  using skills_boundary_safe [of "''javascript developer''"] by blast

section \<open>Properties of the name extraction\<close>

text \<open>
  Claim C7, as stated: name extraction on the lines "John Smith", "Software Engineer",
  "john@x.com" returns exactly "John Smith". The code returns something else.
\<close>

theorem extract_name_example_not_john_smith:
  "extract_name_robust ''John Smith\<newline>Software Engineer\<newline>john@x.com'' \<noteq> ''John Smith''"
  by code_simp

text \<open>
  Claim C7, amended: the first two lines are both name candidates of at most three
  words and their concatenation has four words, so the two are combined and the result
  is "John Smith Software Engineer".
\<close>

theorem extract_name_example:
  "extract_name_robust ''John Smith\<newline>Software Engineer\<newline>john@x.com''
     = ''John Smith Software Engineer''"
  by code_simp

section \<open>Terms that end in a non-word character\<close>

lemma trailing_nonword_no_match:
  assumes "lit \<noteq> []" "\<not> is_word (last lit)"
    and "\<And>i. occurs_at s lit i \<Longrightarrow> \<not> word_at s (i + length lit)"
  shows "\<not> re_search_bounded lit s"
proof
  assume "re_search_bounded lit s"
  then obtain i where m: "bounded_match_at s lit i" by (auto simp: re_search_bounded_iff)
  then have occ: "occurs_at s lit i" and wb: "word_boundary s (i + length lit)"
    by (simp_all add: bounded_match_at_def)
  from occ have le: "i + length lit \<le> length s" and tk: "take (length lit) (drop i s) = lit"
    by (simp_all add: occurs_at_def)
  have pos: "0 < length lit" using assms(1) by simp
  have "s ! (i + length lit - 1) = lit ! (length lit - 1)"
  proof -
    have "lit ! (length lit - 1) = take (length lit) (drop i s) ! (length lit - 1)"
      using tk by simp
    also have "\<dots> = drop i s ! (length lit - 1)" using pos by simp
    also have "\<dots> = s ! (i + (length lit - 1))" using le pos by simp
    finally show ?thesis using pos by simp
  qed
  then have "s ! (i + length lit - 1) = last lit"
    using assms(1) by (simp add: last_conv_nth)
  then have "\<not> word_at s (i + length lit - 1)"
    using assms(2) by (simp add: word_at_def)
  moreover have "\<not> word_at s (i + length lit)" using assms(3) occ by blast
  ultimately show False using wb by (simp add: word_boundary_def)
qed

lemma space_or_other_punct_not_word: "space_or_other_punct c \<Longrightarrow> \<not> is_word c"
  by (auto simp: space_or_other_punct_def is_space_def is_punct_def is_word_def is_alpha_def
        is_digit_def is_upper_def is_lower_def less_eq_char_def)

lemma followed_by_delimiter:
  assumes "followed_by space_or_other_punct s lit" "occurs_at s lit i"
  shows "\<not> word_at s (i + length lit)"
proof -
  from assms(2) have "i \<le> length s" by (simp add: occurs_at_def)
  then have "i \<in> set [0 ..< Suc (length s)]" by (simp del: upt_Suc)
  with assms have "i + length lit = length s \<or> space_or_other_punct (s ! (i + length lit))"
    unfolding followed_by_def list_all_iff by blast
  then show ?thesis using space_or_other_punct_not_word by (auto simp: word_at_def)
qed

text \<open>
  Claim C10, as stated: when "c++" and "c#" occur only at the end of the text or followed
  by whitespace or punctuation, neither is detected. The underscore is punctuation and a
  word character: in "c++_" the boundary after "c++" matches and "c++" is detected.
\<close>

theorem cpp_counterexample:
  "followed_by space_or_punct (py_lower ''c++_'') ''c++''
   \<and> followed_by space_or_punct (py_lower ''c++_'') ''c#''
   \<and> ''c++'' \<in> set (extract_skills_from_text ''c++_'')"
proof (intro conjI)
  show "followed_by space_or_punct (py_lower ''c++_'') ''c++''" by code_simp
  show "followed_by space_or_punct (py_lower ''c++_'') ''c#''" by code_simp
  have "re_search_bounded ''c++'' (py_lower ''c++_'')" by code_simp
  then show "''c++'' \<in> set (extract_skills_from_text ''c++_'')"
    by (simp add: extract_skills_mem TECH_WORDS_def)
qed

text \<open>
  Claim C10, amended: when every occurrence of "c++" (respectively "c#") in the
  lower-cased text ends the text or is followed by whitespace or by punctuation other
  than the underscore, the term is not in the result. The characters of the hypothesis
  are ASCII ones, which are not word characters for Python either.
\<close>

theorem cpp_not_detected:
  assumes "tech \<in> set [''c++'', ''c#'']"
    and "followed_by space_or_other_punct (py_lower text) tech"
  shows "tech \<notin> set (extract_skills_from_text text)"
proof -
  have "tech \<noteq> []" and "\<not> is_word (last tech)"
    using assms(1) by (auto simp: is_word_def is_alpha_def is_digit_def is_upper_def is_lower_def)
  then have "\<not> re_search_bounded tech (py_lower text)"
    using followed_by_delimiter [OF assms(2)] by (rule trailing_nonword_no_match)
  then show ?thesis by (simp add: extract_skills_mem)
qed

theorem cpp_not_detected_witness:
  "followed_by space_or_other_punct (py_lower ''C++, c#'') ''c++''
   \<and> followed_by space_or_other_punct (py_lower ''C++, c#'') ''c#''
   \<and> ''c++'' \<notin> set (extract_skills_from_text ''C++, c#'')
   \<and> ''c#'' \<notin> set (extract_skills_from_text ''C++, c#'')"
proof -
  have a: "followed_by space_or_other_punct (py_lower ''C++, c#'') ''c++''" by code_simp
  have b: "followed_by space_or_other_punct (py_lower ''C++, c#'') ''c#''" by code_simp
  show ?thesis
    using a b cpp_not_detected [of "''c++''" "''C++, c#''"]
      cpp_not_detected [of "''c#''" "''C++, c#''"]
    by simp
qed

section \<open>The two skill vocabularies\<close>

lemma jd_subset: "set (jd_extract_skills_from_text text) \<subseteq> set DEFAULT_SKILL_VOCAB"
  by (auto simp: jd_extract_skills_from_text_def Let_def)

lemma vocab_subset: "set DEFAULT_SKILL_VOCAB \<subseteq> set TECH_WORDS"
  by (simp add: DEFAULT_SKILL_VOCAB_def TECH_WORDS_def)

lemma java_vocab: "''java'' \<in> set TECH_WORDS" "''java'' \<notin> set DEFAULT_SKILL_VOCAB"
  by (simp_all add: DEFAULT_SKILL_VOCAB_def TECH_WORDS_def)

lemma vocab_detectable:
  "list_all (\<lambda>t. t \<in> set (jd_extract_skills_from_text t) \<and> re_search_bounded t (py_lower t)) DEFAULT_SKILL_VOCAB"
  by code_simp

text \<open>
  Claim C5, as stated: a term is detectable in a job description iff it is detectable by
  the resume skill extractor. On the text "java" the resume extractor detects "java" and
  the job-description extractor does not.
\<close>

theorem jd_vocab_counterexample:
  "\<not> (''java'' \<in> set (jd_extract_skills_from_text ''java'')
        \<longleftrightarrow> ''java'' \<in> set (extract_skills_from_text ''java''))"
proof -
  have "''java'' \<notin> set (jd_extract_skills_from_text ''java'')"
    using jd_subset java_vocab(2) by blast
  moreover have "re_search_bounded ''java'' (py_lower ''java'')" by code_simp
  then have "''java'' \<in> set (extract_skills_from_text ''java'')"
    using java_vocab(1) by (simp add: extract_skills_mem)
  ultimately show ?thesis by simp
qed

text \<open>
  Claim C5, amended: the job-description extractor only returns terms of its own
  vocabulary of 18 terms, which is a proper subset of the resume vocabulary; each of the
  18 terms is detected by both extractors on the text that consists of the term.
\<close>

theorem jd_vocab_sub:
  "set (jd_extract_skills_from_text text) \<subseteq> set DEFAULT_SKILL_VOCAB
   \<and> set DEFAULT_SKILL_VOCAB \<subset> set TECH_WORDS
   \<and> (\<forall>t \<in> set DEFAULT_SKILL_VOCAB.
         t \<in> set (jd_extract_skills_from_text t) \<and> t \<in> set (extract_skills_from_text t))"
proof (intro conjI ballI)
  show "set (jd_extract_skills_from_text text) \<subseteq> set DEFAULT_SKILL_VOCAB" by (rule jd_subset)
  show "set DEFAULT_SKILL_VOCAB \<subset> set TECH_WORDS"
    using vocab_subset java_vocab by blast
next
  fix t assume t: "t \<in> set DEFAULT_SKILL_VOCAB"
  with vocab_detectable
  have d: "t \<in> set (jd_extract_skills_from_text t) \<and> re_search_bounded t (py_lower t)"
    unfolding list_all_iff by blast
  then show "t \<in> set (jd_extract_skills_from_text t)" by simp
  show "t \<in> set (extract_skills_from_text t)"
    using d t vocab_subset by (auto simp: extract_skills_mem)
qed

theorem jd_vocab_sub_witness:
  "set (jd_extract_skills_from_text ''Python and SQL, no java'') \<subseteq> set DEFAULT_SKILL_VOCAB
   \<and> ''sql'' \<in> set (jd_extract_skills_from_text ''sql'')
   \<and> ''sql'' \<in> set (extract_skills_from_text ''sql'')"
proof -
  have "''sql'' \<in> set DEFAULT_SKILL_VOCAB" by (simp add: DEFAULT_SKILL_VOCAB_def)
  then show ?thesis using jd_vocab_sub [of "''Python and SQL, no java''"] by blast
qed

section \<open>Properties of the section segmentation\<close>

text \<open>
  Claim C3 says that the section contents hold every non-empty input line, also when a
  section name is detected as a header more than once. The code and the claim part on
  the text below, where the header "Skills:" occurs twice: the second flush of the section
  "skills" replaces what the first one stored, and the line "Python" is in no section.
\<close>

theorem split_sections_overwrites:
  "split_resume_by_sections
      ''Skills:\<newline>Python\<newline>Projects:\<newline>Chatbot\<newline>Skills:\<newline>SQL''
     = [(''contact'', []), (''summary'', []), (''education'', []), (''experience'', []),
        (''projects'', ''Projects:\<newline>Chatbot''), (''skills'', ''Skills:\<newline>SQL''),
        (''achievements'', []), (''other'', [])]
   \<and> \<not> list_ex (py_in ''Python'')
         (map snd (split_resume_by_sections
            ''Skills:\<newline>Python\<newline>Projects:\<newline>Chatbot\<newline>Skills:\<newline>SQL''))"
  by code_simp

section \<open>Properties of the merge of hyperlinks\<close>

lemma merge_hyperlinks_spec:
  "\<exists>new. merge_hyperlinks ps hs = ps @ new
     \<and> distinct (map url new)
     \<and> set (map url new) = {u \<in> snd ` set hs. u \<noteq> []} - url ` set ps
     \<and> (\<forall>p \<in> set new. label p = label_url (url p))"
proof (induction hs arbitrary: ps)
  case Nil
  then show ?case by simp
next
  case (Cons h hs)
  obtain t u where h: "h = (t, u)" by (cases h)
  show ?case
  proof (cases "u \<noteq> [] \<and> \<not> list_ex (\<lambda>p. url p = u) ps")
    case True
    let ?p = "\<lparr>label = label_url u, url = u\<rparr>"
    from Cons.IH [of "ps @ [?p]"] obtain new where
      n: "merge_hyperlinks (ps @ [?p]) hs = (ps @ [?p]) @ new"
         "distinct (map url new)"
         "set (map url new) = {u \<in> snd ` set hs. u \<noteq> []} - url ` set (ps @ [?p])"
         "\<forall>p \<in> set new. label p = label_url (url p)"
      by blast
    have notin: "u \<notin> url ` set ps" using True by (auto simp: list_ex_iff)
    have "merge_hyperlinks ps (h # hs) = ps @ (?p # new)" using True h n(1) by simp
    moreover have "distinct (map url (?p # new))" using n(2,3) by auto
    moreover have "set (map url (?p # new)) = {u \<in> snd ` set (h # hs). u \<noteq> []} - url ` set ps"
      using n(3) True notin h by auto
    moreover have "\<forall>p \<in> set (?p # new). label p = label_url (url p)" using n(4) by simp
    ultimately show ?thesis by blast
  next
    case False
    from Cons.IH [of ps] obtain new where
      n: "merge_hyperlinks ps hs = ps @ new"
         "distinct (map url new)"
         "set (map url new) = {u \<in> snd ` set hs. u \<noteq> []} - url ` set ps"
         "\<forall>p \<in> set new. label p = label_url (url p)"
      by blast
    have "merge_hyperlinks ps (h # hs) = ps @ new" using False h n(1) by auto
    moreover have "set (map url new) = {u \<in> snd ` set (h # hs). u \<noteq> []} - url ` set ps"
      using n(3) False h by (auto simp: list_ex_iff)
    ultimately show ?thesis using n(2,4) by blast
  qed
qed

lemma no_website_label: "(key, lbl) \<in> set PROFILE_LABELS \<Longrightarrow> lbl \<noteq> ''Website''"
  by (auto simp: PROFILE_LABELS_def)

lemma label_url_website:
  "label_url u = ''Website'' \<longleftrightarrow> (\<forall>key \<in> set (map fst PROFILE_LABELS). \<not> py_in key (py_lower u))"
proof (cases "find (\<lambda>(key, lbl). py_in key (py_lower u)) PROFILE_LABELS")
  case None
  then have "\<forall>x \<in> set PROFILE_LABELS. \<not> (case x of (key, lbl) \<Rightarrow> py_in key (py_lower u))"
    by (auto simp: find_None_iff)
  then have r: "\<forall>key \<in> set (map fst PROFILE_LABELS). \<not> py_in key (py_lower u)" by force
  have l: "label_url u = ''Website''" using None by (simp add: label_url_def)
  show ?thesis using l r by blast
next
  case (Some x)
  obtain key lbl where x: "x = (key, lbl)" by (cases x)
  define P where "P = (\<lambda>(key :: string, lbl :: string). py_in key (py_lower u))"
  from Some have "find P PROFILE_LABELS = Some x" by (simp add: P_def)
  then obtain i where i: "i < length PROFILE_LABELS" "x = PROFILE_LABELS ! i" and "P x"
    unfolding find_Some_iff by blast
  then have px: "case x of (key, lbl) \<Rightarrow> py_in key (py_lower u)" by (simp add: P_def)
  from i have "x \<in> set PROFILE_LABELS" by simp
  with px have m: "(key, lbl) \<in> set PROFILE_LABELS" and k: "py_in key (py_lower u)"
    by (simp_all add: x)
  have "lbl \<noteq> ''Website''" using m by (rule no_website_label)
  moreover have "key \<in> set (map fst PROFILE_LABELS)" using m by force
  ultimately show ?thesis using Some k by (auto simp: label_url_def x)
qed

lemma label_url_first:
  assumes "i < length PROFILE_LABELS"
    and "py_in (fst (PROFILE_LABELS ! i)) (py_lower u)"
    and "\<forall>j < i. \<not> py_in (fst (PROFILE_LABELS ! j)) (py_lower u)"
  shows "label_url u = snd (PROFILE_LABELS ! i)"
proof -
  have "find (\<lambda>(key, lbl). py_in key (py_lower u)) PROFILE_LABELS = Some (PROFILE_LABELS ! i)"
    unfolding find_Some_iff using assms by (intro exI [of _ i]) (simp add: case_prod_beta)
  then show ?thesis by (simp add: label_url_def case_prod_beta)
qed

lemma label_examples:
  "label_url ''https://github.com/jdoe'' = ''GitHub''"
  "label_url ''https://www.LinkedIn.com/in/jdoe'' = ''LinkedIn''"
  "label_url ''https://example.org/me'' = ''Website''"
  by code_simp+

text \<open>
  Claim C9. One hyperlink is appended, with the label of its URL, iff its URL is not
  empty and no profile of the record has that URL. For a whole list, the record keeps
  its profiles and gains exactly one profile for each distinct non-empty URL that it
  did not have, so a URL that is already there is never duplicated. The label is the one
  of the classification table: the label of the first key of the table that occurs in
  the lower-cased URL, and "Website" exactly when no key occurs; so a GitHub URL is
  labelled "GitHub", a LinkedIn URL "LinkedIn" and an unknown site "Website".
\<close>

theorem merge_hyperlinks_no_duplicate:
  "merge_hyperlinks ps [(t, u)]
     = (if u \<noteq> [] \<and> u \<notin> url ` set ps then ps @ [\<lparr>label = label_url u, url = u\<rparr>] else ps)
   \<and> (\<exists>new. merge_hyperlinks ps hs = ps @ new
          \<and> distinct (map url new)
          \<and> set (map url new) = {u \<in> snd ` set hs. u \<noteq> []} - url ` set ps
          \<and> (\<forall>p \<in> set new. label p = label_url (url p)))
   \<and> label_url ''https://github.com/jdoe'' = ''GitHub''
   \<and> label_url ''https://www.LinkedIn.com/in/jdoe'' = ''LinkedIn''
   \<and> label_url ''https://example.org/me'' = ''Website''
   \<and> (label_url u = ''Website''
        \<longleftrightarrow> (\<forall>key \<in> set (map fst PROFILE_LABELS). \<not> py_in key (py_lower u)))
   \<and> (\<forall>i < length PROFILE_LABELS.
         py_in (fst (PROFILE_LABELS ! i)) (py_lower u)
         \<and> (\<forall>j < i. \<not> py_in (fst (PROFILE_LABELS ! j)) (py_lower u))
         \<longrightarrow> label_url u = snd (PROFILE_LABELS ! i))"
proof (intro conjI)
  show "merge_hyperlinks ps [(t, u)]
          = (if u \<noteq> [] \<and> u \<notin> url ` set ps then ps @ [\<lparr>label = label_url u, url = u\<rparr>] else ps)"
    by (auto simp: list_ex_iff)
  show "\<exists>new. merge_hyperlinks ps hs = ps @ new
          \<and> distinct (map url new)
          \<and> set (map url new) = {u \<in> snd ` set hs. u \<noteq> []} - url ` set ps
          \<and> (\<forall>p \<in> set new. label p = label_url (url p))"
    by (rule merge_hyperlinks_spec)
  show "label_url ''https://github.com/jdoe'' = ''GitHub''" by (rule label_examples)
  show "label_url ''https://www.LinkedIn.com/in/jdoe'' = ''LinkedIn''" by (rule label_examples)
  show "label_url ''https://example.org/me'' = ''Website''" by (rule label_examples)
  show "label_url u = ''Website''
          \<longleftrightarrow> (\<forall>key \<in> set (map fst PROFILE_LABELS). \<not> py_in key (py_lower u))"
    by (rule label_url_website)
  show "\<forall>i < length PROFILE_LABELS.
          py_in (fst (PROFILE_LABELS ! i)) (py_lower u)
          \<and> (\<forall>j < i. \<not> py_in (fst (PROFILE_LABELS ! j)) (py_lower u))
          \<longrightarrow> label_url u = snd (PROFILE_LABELS ! i)"
    using label_url_first by blast
qed

theorem merge_hyperlinks_no_duplicate_witness:
  "merge_hyperlinks [\<lparr>label = ''LinkedIn'', url = ''https://linkedin.com/in/jdoe''\<rparr>]
       [(''LinkedIn'', ''https://linkedin.com/in/jdoe'')]
     = [\<lparr>label = ''LinkedIn'', url = ''https://linkedin.com/in/jdoe''\<rparr>]
   \<and> merge_hyperlinks [] [(''Profile'', ''https://github.com/jdoe'')]
     = [\<lparr>label = ''GitHub'', url = ''https://github.com/jdoe''\<rparr>]"
  using merge_hyperlinks_no_duplicate
          [where ps = "[\<lparr>label = ''LinkedIn'', url = ''https://linkedin.com/in/jdoe''\<rparr>]"
             and t = "''LinkedIn''" and u = "''https://linkedin.com/in/jdoe''" and hs = "[]"]
        merge_hyperlinks_no_duplicate
          [where ps = "[]" and t = "''Profile''" and u = "''https://github.com/jdoe''" and hs = "[]"]
  by simp

section \<open>Properties of the compatibility score\<close>

lemma fl_le_small:
  assumes "0 \<le> x" "x \<le> of_int c" "x < 2 ^ 53"
  shows "fl x \<le> of_int c"
proof (cases "x = 0")
  case True
  then show ?thesis using assms(2) by (simp add: fl_zero)
next
  case False
  with assms(1) have x: "0 < x" by simp
  have "x < 2 powi 53" using assms(3) by simp
  then have "expo x < 53" by (rule expo_less [OF x])
  then show ?thesis using x assms(2) by (intro fl_le_int) simp_all
qed

lemma fl_err_le:
  assumes "0 \<le> x" "x \<le> b"
  shows "\<bar>fl x - x\<bar> \<le> b / 2 ^ 53"
proof (cases "x = 0")
  case True
  then show ?thesis using assms by (simp add: fl_zero)
next
  case False
  with assms(1) have x: "0 < x" by simp
  have "\<bar>fl x - x\<bar> \<le> x / 2 ^ 53" by (rule fl_err [OF x])
  also have "\<dots> \<le> b / 2 ^ 53" using assms(2) by (simp add: divide_right_mono)
  finally show ?thesis .
qed

lemma truediv_bounds:
  assumes "m \<le> d" "1 \<le> d"
  shows "0 \<le> py_truediv m d" "py_truediv m d \<le> 1"
    "\<bar>py_truediv m d - of_nat m / of_nat d\<bar> \<le> 1 / 2 ^ 53"
proof -
  define x :: rat where "x = of_nat m / of_nat d"
  have x0: "0 \<le> x" by (simp add: x_def)
  have x1: "x \<le> 1" using assms by (simp add: x_def divide_le_eq)
  show "0 \<le> py_truediv m d" using fl_nonneg [OF x0] by (simp add: py_truediv_def x_def)
  have "fl x \<le> of_int 1" using x0 x1 by (intro fl_le_small) simp_all
  then show "py_truediv m d \<le> 1" by (simp add: py_truediv_def x_def)
  show "\<bar>py_truediv m d - of_nat m / of_nat d\<bar> \<le> 1 / 2 ^ 53"
    using fl_err_le [OF x0 x1] by (simp add: py_truediv_def x_def)
qed

lemma fmul10_bounds:
  assumes "0 \<le> q" "q \<le> 1"
  shows "0 \<le> py_fmul 10 q" "py_fmul 10 q \<le> 10" "\<bar>py_fmul 10 q - 10 * q\<bar> \<le> 10 / 2 ^ 53"
proof -
  have x0: "0 \<le> 10 * q" and x1: "10 * q \<le> 10" using assms by simp_all
  show "0 \<le> py_fmul 10 q" using fl_nonneg [OF x0] by (simp add: py_fmul_def)
  have "fl (10 * q) \<le> of_int 10" using x0 x1 by (intro fl_le_small) simp_all
  then show "py_fmul 10 q \<le> 10" by (simp add: py_fmul_def)
  show "\<bar>py_fmul 10 q - 10 * q\<bar> \<le> 10 / 2 ^ 53"
    using fl_err_le [OF x0 x1] by (simp add: py_fmul_def)
qed

lemma round2_bounds:
  assumes "0 \<le> s" "s \<le> 10"
  shows "0 \<le> rhe (s * 100)" "rhe (s * 100) \<le> 1000"
    "\<bar>of_int (rhe (s * 100)) / 100 - s\<bar> \<le> 1 / 200"
    "0 \<le> py_round2 s" "py_round2 s \<le> 10"
proof -
  have "of_int 0 \<le> s * 100" using assms by simp
  then show k0: "0 \<le> rhe (s * 100)" by (rule rhe_ge)
  have "s * 100 \<le> of_int 1000" using assms by simp
  then show k1: "rhe (s * 100) \<le> 1000" by (rule rhe_le)
  have e: "of_int (rhe (s * 100)) / 100 - s = (of_int (rhe (s * 100)) - s * 100) / 100"
    by (simp add: diff_divide_distrib)
  have "\<bar>of_int (rhe (s * 100)) / 100 - s\<bar> = \<bar>(of_int (rhe (s * 100)) - s * 100) / 100\<bar>"
    by (simp only: e)
  also have "\<dots> = \<bar>of_int (rhe (s * 100)) - s * 100\<bar> / 100"
    by simp
  also have "\<dots> \<le> (1 / 2) / 100" using rhe_err [of "s * 100"] by (intro divide_right_mono) simp_all
  finally show "\<bar>of_int (rhe (s * 100)) / 100 - s\<bar> \<le> 1 / 200" by simp
  define y :: rat where "y = of_int (rhe (s * 100)) / 100"
  have y0: "0 \<le> y" using k0 by (simp add: y_def)
  have "(of_int (rhe (s * 100)) :: rat) \<le> of_int 1000" using k1 by (simp only: of_int_le_iff)
  then have y1: "y \<le> 10" by (simp add: y_def)
  show "0 \<le> py_round2 s" using fl_nonneg [OF y0] by (simp add: py_round2_def y_def)
  have "fl y \<le> of_int 10" using y0 y1 by (intro fl_le_small) simp_all
  then show "py_round2 s \<le> 10" by (simp add: py_round2_def y_def)
qed

lemma score_bounds:
  assumes "m \<le> d" "1 \<le> d"
  defines "s \<equiv> py_fmul 10 (py_truediv m d)"
  shows "0 \<le> py_round2 s" "py_round2 s \<le> 10"
    "0 \<le> rhe (s * 100)" "rhe (s * 100) \<le> 1000"
    "\<bar>of_int (rhe (s * 100)) / 100 - 10 * of_nat m / of_nat d\<bar> \<le> (1 / 200 + 1 / 2 ^ 48 :: rat)"
proof -
  note q = truediv_bounds [OF assms(1,2)]
  note sb = fmul10_bounds [OF q(1,2)]
  have s0: "0 \<le> s" and s1: "s \<le> 10" using sb by (simp_all add: s_def)
  note r = round2_bounds [OF s0 s1]
  show "0 \<le> py_round2 s" "py_round2 s \<le> 10" "0 \<le> rhe (s * 100)" "rhe (s * 100) \<le> 1000"
    using r by simp_all
  have a: "\<bar>s - 10 * py_truediv m d\<bar> \<le> 10 / 2 ^ 53" using sb(3) by (simp add: s_def)
  have b: "\<bar>10 * py_truediv m d - 10 * of_nat m / of_nat d\<bar> \<le> 10 / 2 ^ 53"
  proof -
    have e: "10 * py_truediv m d - 10 * of_nat m / of_nat d
               = 10 * (py_truediv m d - of_nat m / of_nat d)"
      by (simp add: right_diff_distrib)
    have "\<bar>10 * py_truediv m d - 10 * of_nat m / of_nat d\<bar>
            = \<bar>10 * (py_truediv m d - of_nat m / of_nat d)\<bar>"
      by (simp only: e)
    also have "\<dots> = 10 * \<bar>py_truediv m d - of_nat m / of_nat d\<bar>"
      by (subst abs_mult) simp
    also have "\<dots> \<le> 10 * (1 / 2 ^ 53)" using q(3) by (intro mult_left_mono) simp_all
    finally show ?thesis by simp
  qed
  have "\<bar>of_int (rhe (s * 100)) / 100 - 10 * of_nat m / of_nat d\<bar>
          \<le> \<bar>of_int (rhe (s * 100)) / 100 - s\<bar> + \<bar>s - 10 * py_truediv m d\<bar>
             + \<bar>10 * py_truediv m d - 10 * of_nat m / of_nat d\<bar>"
    by linarith
  also have "\<dots> \<le> 1 / 200 + 10 / 2 ^ 53 + 10 / 2 ^ 53" using r(3) a b by linarith
  also have "\<dots> \<le> 1 / 200 + 1 / 2 ^ 48" by simp
  finally show "\<bar>of_int (rhe (s * 100)) / 100 - 10 * of_nat m / of_nat d\<bar>
                  \<le> (1 / 200 + 1 / 2 ^ 48 :: rat)" .
qed


lemma compute_compatibility_sets:
  "compute_compatibility R J =
     (py_round2 (py_fmul 10 (py_truediv (card (py_lower ` set R \<inter> py_lower ` set J))
         (max 1 (card (py_lower ` set J))))),
      sorted_list_of_set (py_lower ` set R \<inter> py_lower ` set J),
      sorted_list_of_set (py_lower ` set J - py_lower ` set R))"
  by (simp add: compute_compatibility_def Let_def)

text \<open>
  Claim C2. For all lists \<open>R\<close> and \<open>J\<close>, \<open>matched\<close> is the sorted duplicate-free list of
  the lower-cased skills common to both, \<open>missing\<close> the sorted duplicate-free list of the
  lower-cased skills of \<open>J\<close> that are not among those of \<open>R\<close>; the score is
  \<open>10 * |matched| / max(1, |J as a lower-cased set|)\<close> computed in floating point and rounded
  to two decimals: it is the double nearest to a decimal \<open>k / 100\<close> which differs from the
  exact quotient by at most half a hundredth (and the floating-point error, below
  \<open>2 powi (- 48)\<close>); the score lies in \<open>[0, 10]\<close>; \<open>matched\<close> and \<open>missing\<close> are disjoint;
  and an empty \<open>J\<close> gives the score 0.
\<close>

theorem compute_compatibility_spec:
  assumes "compute_compatibility R J = (score, matched, missing)"
  shows "sorted matched \<and> distinct matched
         \<and> set matched = py_lower ` set R \<inter> py_lower ` set J
       \<and> sorted missing \<and> distinct missing
         \<and> set missing = py_lower ` set J - py_lower ` set R
       \<and> score = py_round2 (py_fmul 10
                 (py_truediv (length matched) (max 1 (card (py_lower ` set J)))))
       \<and> (\<exists>k. 0 \<le> k \<and> k \<le> 1000 \<and> score = fl (of_int k / 100)
              \<and> \<bar>of_int k / 100
                    - 10 * of_nat (length matched) / of_nat (max 1 (card (py_lower ` set J)))\<bar>
                  \<le> (1 / 200 + 1 / 2 ^ 48 :: rat))
       \<and> 0 \<le> score \<and> score \<le> 10
       \<and> set matched \<inter> set missing = {}
       \<and> (J = [] \<longrightarrow> score = 0)"
proof -
  define A where "A = py_lower ` set R \<inter> py_lower ` set J"
  define B where "B = py_lower ` set J - py_lower ` set R"
  define d where "d = max 1 (card (py_lower ` set J))"
  define s where "s = py_fmul 10 (py_truediv (card A) d)"
  have fin: "finite A" "finite B" by (simp_all add: A_def B_def)
  from assms have sc: "score = py_round2 s" and ma: "matched = sorted_list_of_set A"
    and mi: "missing = sorted_list_of_set B"
    by (simp_all add: compute_compatibility_sets A_def B_def d_def s_def)
  have len: "length matched = card A" using fin by (simp add: ma)
  have "card A \<le> card (py_lower ` set J)" by (auto simp: A_def intro: card_mono)
  then have md: "card A \<le> d" and d1: "1 \<le> d" by (simp_all add: d_def)
  note b = score_bounds [OF md d1, folded s_def]
  have k: "\<exists>k. 0 \<le> k \<and> k \<le> 1000 \<and> score = fl (of_int k / 100)
              \<and> \<bar>of_int k / 100 - 10 * of_nat (length matched) / of_nat d\<bar>
                  \<le> (1 / 200 + 1 / 2 ^ 48 :: rat)"
    using b(3,4,5) by (intro exI [of _ "rhe (s * 100)"]) (simp add: sc py_round2_def len)
  have empty: "J = [] \<longrightarrow> score = 0"
  proof
    assume "J = []"
    then have "card A = 0" by (simp add: A_def)
    then have "py_truediv (card A) d = 0" by (simp add: py_truediv_def fl_zero)
    then have "s = 0" by (simp add: s_def py_fmul_def fl_zero)
    then show "score = 0" by (simp add: sc py_round2_def rhe_def fl_zero)
  qed
  have disj: "set matched \<inter> set missing = {}" using fin by (auto simp: ma mi A_def B_def)
  have m1: "sorted matched" and m2: "distinct matched" and m3: "set matched = A"
    using fin by (simp_all add: ma)
  have n1: "sorted missing" and n2: "distinct missing" and n3: "set missing = B"
    using fin by (simp_all add: mi)
  have sc': "score = py_round2 (py_fmul 10 (py_truediv (length matched) d))"
    by (simp add: sc s_def len)
  have r0: "0 \<le> score" and r1: "score \<le> 10" using b(1,2) by (simp_all add: sc)
  show ?thesis
  proof (intro conjI)
    show "sorted matched" by (rule m1)
    show "distinct matched" by (rule m2)
    show "set matched = py_lower ` set R \<inter> py_lower ` set J" using m3 by (simp only: A_def)
    show "sorted missing" by (rule n1)
    show "distinct missing" by (rule n2)
    show "set missing = py_lower ` set J - py_lower ` set R" using n3 by (simp only: B_def)
    show "score = py_round2 (py_fmul 10
            (py_truediv (length matched) (max 1 (card (py_lower ` set J)))))"
      using sc' by (simp only: d_def)
    show "\<exists>k. 0 \<le> k \<and> k \<le> 1000 \<and> score = fl (of_int k / 100)
              \<and> \<bar>of_int k / 100
                    - 10 * of_nat (length matched) / of_nat (max 1 (card (py_lower ` set J)))\<bar>
                  \<le> (1 / 200 + 1 / 2 ^ 48 :: rat)"
      using k by (simp only: d_def)
    show "0 \<le> score" by (rule r0)
    show "score \<le> 10" by (rule r1)
    show "set matched \<inter> set missing = {}" by (rule disj)
    show "J = [] \<longrightarrow> score = 0" by (rule empty)
  qed
qed

theorem compute_compatibility_spec_witness:
  "compute_compatibility [''Python'', ''SQL'', ''AWS''] [''python'', ''docker'', ''sql'']
     = (fl (667 / 100), [''python'', ''sql''], [''docker''])
   \<and> 0 \<le> fl (667 / 100) \<and> fl (667 / 100) \<le> 10
   \<and> set [''python'', ''sql''] \<inter> set [''docker''] = {}"
proof -
  define R where "R = [''Python'', ''SQL'', ''AWS'']"
  define J where "J = [''python'', ''docker'', ''sql'']"
  have ma: "sorted_list_of_set (set (map py_lower R) \<inter> set (map py_lower J)) = [''python'', ''sql'']"
    unfolding R_def J_def by code_simp
  have mi: "sorted_list_of_set (set (map py_lower J) - set (map py_lower R)) = [''docker'']"
    unfolding R_def J_def by code_simp
  have de: "max 1 (card (set (map py_lower J))) = 3"
    unfolding J_def by code_simp
  have q: "py_truediv 2 3 = 6004799503160661 / 9007199254740992" by code_simp
  have s: "py_fmul 10 (6004799503160661 / 9007199254740992) = 3752999689475413 / 562949953421312"
    by code_simp
  have r: "py_round2 (3752999689475413 / 562949953421312) = 3754876189320151 / 562949953421312"
    by code_simp
  have f: "fl (667 / 100) = 3754876189320151 / 562949953421312" by code_simp
  have len: "length [''python'', ''sql''] = 2" by simp
  have e: "compute_compatibility R J = (fl (667 / 100), [''python'', ''sql''], [''docker''])"
    unfolding compute_compatibility_def Let_def ma mi de len q s r f by (rule refl)
  from compute_compatibility_spec [OF e]
  have "0 \<le> fl (667 / 100) \<and> fl (667 / 100) \<le> 10
        \<and> set [''python'', ''sql''] \<inter> set [''docker''] = {}"
    by (elim conjE) (intro conjI, assumption+)
  with e show ?thesis unfolding R_def J_def by (intro conjI) (elim conjE, assumption)+
qed

section \<open>Properties of the assembly of the record\<close>

lemma update_keeps_keys: "k \<in> fst ` set al \<Longrightarrow> k \<in> fst ` set (AList.update k' v al)"
  by (simp add: AList.dom_update)

lemma split_loop_keeps_keys:
  "k \<in> fst ` set al \<Longrightarrow> k \<in> fst ` set (split_loop al cur content lines)"
proof (induction lines arbitrary: al cur content)
  case Nil
  then show ?case by (simp add: update_keeps_keys)
next
  case (Cons line lines)
  show ?case
  proof (cases "detected_section line")
    case None
    then show ?thesis using Cons by simp
  next
    case (Some d)
    then show ?thesis using Cons by (simp add: update_keeps_keys)
  qed
qed

lemma section_key_present:
  assumes "k \<in> set (map fst SECTION_KEYWORDS)"
  shows "\<exists>v. map_of (split_resume_by_sections doc) k = Some v"
proof -
  have "k \<in> fst ` set (map (\<lambda>k. (k, [])) (map fst SECTION_KEYWORDS) @ [(''other'', [])])"
    using assms by force
  then have "k \<in> fst ` set (split_resume_by_sections doc)"
    unfolding split_resume_by_sections_def Let_def by (rule split_loop_keeps_keys)
  then show ?thesis by (metis domD dom_map_of_conv_image_fst)
qed

lemma get_ignores_default:
  assumes "k \<in> set (map fst SECTION_KEYWORDS)"
  shows "py_get (split_resume_by_sections doc) k d = py_get (split_resume_by_sections doc) k d'"
  using section_key_present [OF assms, of doc] by (auto simp: py_get_def)

lemma achievements_of_empty: "extract_achievements_from_text [] = Inl IndexError"
  by (simp add: extract_achievements_from_text_def py_strip_def py_startswith_def bullet_def)

lemma no_achievements_section_raises:
  assumes "py_get (split_resume_by_sections text) ''achievements'' text = []"
  shows "extract_resume_info fs text = Inl IndexError"
  by (simp add: extract_resume_info_def Let_def assms achievements_of_empty)

lemma sections_john:
  "split_resume_by_sections ''John Smith\<newline>Email: john@x.com''
     = [(''contact'', ''Email: john@x.com''), (''summary'', []), (''education'', []),
        (''experience'', []), (''projects'', []), (''skills'', []), (''achievements'', []),
        (''other'', [])]"
  by code_simp

text \<open>
  Claim C1 says that \<open>extract_resume_info\<close> returns a record for every input string,
  also for one with no achievements section. On the two-line resume below the
  achievements section is empty, the achievement loop reads \<open>line[0]\<close> of the empty line
  and the call ends in \<open>IndexError\<close>, whatever the file system does.
\<close>

theorem extract_resume_info_raises:
  "extract_resume_info fs ''John Smith\<newline>Email: john@x.com'' = Inl IndexError"
  by (rule no_achievements_section_raises) (simp add: sections_john py_get_def)

lemma resume_example:
  "extract_resume_info \<lparr>makedirs_ok = True, open_ok = True, write_ok = True\<rparr>
       ''a python api\<newline>Awards:\<newline>- Won the hackathon''
     = Inr \<lparr>name = ''A Python Api Awards:'', email = [], phone = [], online_profiles = [],
            experience_summary = None, projects = [], skills = [''python''],
            achievements = Some [''Won the hackathon'']\<rparr>"
  by code_simp

lemma projects_example:
  "extract_projects_from_text ''a python api\<newline>Awards:\<newline>- Won the hackathon''
     = [\<lparr>project_name = ''a  api'', technologies = [''python'']\<rparr>,
        \<lparr>project_name = ''awads:'', technologies = [''r'']\<rparr>]"
  by code_simp

text \<open>
  Claim C8 says that project and achievement extraction fall back to the whole text
  when their section is empty. The dictionary of sections always holds both keys, so
  the default of \<open>sections.get\<close> is never taken: on the text below the projects section
  is empty and the record has no project, while the whole text yields two.
\<close>

theorem section_fallback_never_taken:
  "extract_resume_info \<lparr>makedirs_ok = True, open_ok = True, write_ok = True\<rparr>
       ''a python api\<newline>Awards:\<newline>- Won the hackathon''
     = Inr \<lparr>name = ''A Python Api Awards:'', email = [], phone = [], online_profiles = [],
            experience_summary = None, projects = [], skills = [''python''],
            achievements = Some [''Won the hackathon'']\<rparr>
   \<and> extract_projects_from_text ''a python api\<newline>Awards:\<newline>- Won the hackathon''
     = [\<lparr>project_name = ''a  api'', technologies = [''python'']\<rparr>,
        \<lparr>project_name = ''awads:'', technologies = [''r'']\<rparr>]
   \<and> py_get (split_resume_by_sections text) ''projects'' text
     = py_get (split_resume_by_sections text) ''projects'' []
   \<and> py_get (split_resume_by_sections text) ''achievements'' text
     = py_get (split_resume_by_sections text) ''achievements'' []"
proof (intro conjI)
  show "py_get (split_resume_by_sections text) ''projects'' text
          = py_get (split_resume_by_sections text) ''projects'' []"
    by (rule get_ignores_default) (simp add: SECTION_KEYWORDS_def)
  show "py_get (split_resume_by_sections text) ''achievements'' text
          = py_get (split_resume_by_sections text) ''achievements'' []"
    by (rule get_ignores_default) (simp add: SECTION_KEYWORDS_def)
qed (rule resume_example projects_example)+

text \<open>
  Claim C4, as stated: a failure of the diagnostic persistence step is caught and never
  reaches the caller. The call of \<open>save_extracted_data\<close> is not guarded: when the report
  file cannot be opened, \<open>extract_resume_info\<close> ends in \<open>OSError\<close> on a text for which
  the record was assembled.
\<close>

theorem persistence_failure_counterexample:
  "extract_resume_info \<lparr>makedirs_ok = True, open_ok = False, write_ok = True\<rparr>
       ''a python api\<newline>Awards:\<newline>- Won the hackathon''
     = Inl OSError"
  using resume_example
  by (auto simp: extract_resume_info_def Let_def save_extracted_data_def split: sum.splits)

text \<open>
  Claim C4, amended: the persistence step never changes the record, and its failure is
  not caught. If the call returns a record on some file system, then on every file
  system the same call returns that record when the three operations of the persistence
  step succeed, and ends in \<open>OSError\<close> when one of them fails.
\<close>

theorem persistence_failure_propagates:
  assumes "extract_resume_info fs text = Inr r"
  shows "extract_resume_info fs' text
           = (if makedirs_ok fs' \<and> open_ok fs' \<and> write_ok fs' then Inr r else Inl OSError)"
  using assms
  by (auto simp: extract_resume_info_def Let_def save_extracted_data_def
           split: sum.splits if_splits)

theorem persistence_failure_propagates_witness:
  "extract_resume_info \<lparr>makedirs_ok = True, open_ok = True, write_ok = False\<rparr>
       ''a python api\<newline>Awards:\<newline>- Won the hackathon''
     = Inl OSError
   \<and> extract_resume_info \<lparr>makedirs_ok = True, open_ok = True, write_ok = True\<rparr>
       ''a python api\<newline>Awards:\<newline>- Won the hackathon''
     = Inr \<lparr>name = ''A Python Api Awards:'', email = [], phone = [], online_profiles = [],
            experience_summary = None, projects = [], skills = [''python''],
            achievements = Some [''Won the hackathon'']\<rparr>"
  using persistence_failure_propagates [OF resume_example,
          of "\<lparr>makedirs_ok = True, open_ok = True, write_ok = False\<rparr>"]
        persistence_failure_propagates [OF resume_example,
          of "\<lparr>makedirs_ok = True, open_ok = True, write_ok = True\<rparr>"]
  by simp

end
